theory Spec2Isabelle
  imports Complex_Main "HOL-Library.Multiset"
begin

section \<open>Numbers and array access of the source language\<close>

text \<open>
  The wheel component computes with JavaScript numbers, which are IEEE doubles. Every
  double is a rational, and angles are rationals (\<open>rat\<close>) here. The functions of the
  component are first given with exact arithmetic: \<open>+\<close>, \<open>-\<close>, \<open>*\<close> and \<open>/\<close> without
  rounding. That is what the code computes wherever every intermediate value is a
  double, as at the concrete inputs evaluated below. Where rounding decides, in the
  reorder effect, the functions are given a second time, with the suffix \<open>_double\<close>
  and every arithmetic operation rounded to the nearest double. The remainder \<open>%\<close>,
  \<open>Math.floor\<close> and negation are exact on doubles. Indices, which the source obtains
  from \<open>Math.floor\<close>, are integers (\<open>int\<close>).
\<close>

definition js_rem :: "rat \<Rightarrow> rat \<Rightarrow> rat" where
  \<comment> \<open>The \<open>%\<close> operator on numbers: the remainder of the truncated quotient; its sign
      is the sign of the dividend.\<close>
  "js_rem a b = a - b * of_int (if a / b < 0 then \<lceil>a / b\<rceil> else \<lfloor>a / b\<rfloor>)"

definition js_rem_int :: "int \<Rightarrow> int \<Rightarrow> int" where
  \<comment> \<open>\<open>%\<close> on integer-valued numbers.\<close>
  "js_rem_int a b = sgn a * (\<bar>a\<bar> mod \<bar>b\<bar>)"

definition nth_opt :: "'a list \<Rightarrow> int \<Rightarrow> 'a option" where
  \<comment> \<open>\<open>xs[i]\<close>: \<open>undefined\<close> (here \<open>None\<close>) outside the array.\<close>
  "nth_opt xs i = (if 0 \<le> i \<and> i < int (length xs) then Some (xs ! nat i) else None)"

fun indexOf_from :: "'a list \<Rightarrow> 'a \<Rightarrow> int \<Rightarrow> int" where
  "indexOf_from [] x k = -1"
| "indexOf_from (y # ys) x k = (if y = x then k else indexOf_from ys x (k + 1))"

definition indexOf :: "'a list \<Rightarrow> 'a \<Rightarrow> int" where
  \<comment> \<open>\<open>xs.indexOf(x)\<close>: the first position of \<open>x\<close>, or \<open>-1\<close>.\<close>
  "indexOf xs x = indexOf_from xs x 0"

section \<open>The wheel component\<close>

text \<open>
  What the component does to its collaborators is recorded in a trace: the call of
  \<open>onSpinStart\<close>, the animations handed to the animation controls
  (\<open>controls.start\<close> with the target angle and the duration in seconds, and
  \<open>controls.set\<close>), and the call of \<open>onResult\<close>.
\<close>

datatype event =
    SpinStartCalled
  | AnimationStart rat rat
  | AnimationSet rat
  | ResultEmitted "string option" int

record historyHighlight =
  hh_options :: "string list"
  hh_index :: int
  hh_requestId :: int

record wheel =
  isSpinning :: bool
  selectedIndex :: "int option"
  rotation :: rat
  prefersReducedMotion :: bool
  prevOptionsRef :: "string list"
  prevRotationRef :: rat
  lastHistoryRequestIdRef :: "int option"
  trace :: "event list"

definition initial_wheel :: "string list \<Rightarrow> wheel" where
  "initial_wheel options =
     \<lparr>isSpinning = False, selectedIndex = None, rotation = 0, prefersReducedMotion = False,
      prevOptionsRef = options, prevRotationRef = 0, lastHistoryRequestIdRef = None,
      trace = []\<rparr>"

definition calculateIndexFromRotation :: "nat \<Rightarrow> rat \<Rightarrow> int" where
  \<comment> \<open>The first argument is \<open>options.length\<close> of the render the callback belongs to.\<close>
  "calculateIndexFromRotation n totalRotation =
     (if n \<le> 0 then 0
      else
        let sliceAngle = 360 / of_nat n;
            index = \<lfloor>js_rem (360 - js_rem totalRotation 360) 360 / sliceAngle\<rfloor>
        in js_rem_int index (int n))"

subsection \<open>spin\<close>

text \<open>
  \<open>spin\<close> draws three random numbers (\<open>Math.random()\<close>, each in \<open>[0, 1)\<close>): \<open>rnd1\<close>
  picks the target index, \<open>rnd2\<close> the number of extra spins, \<open>rnd3\<close> the jitter of the
  duration. The local constants of the function are definitions of their own, so that
  they can be named.
\<close>

definition spin_targetIndex :: "string list \<Rightarrow> rat \<Rightarrow> int" where
  "spin_targetIndex options rnd1 = \<lfloor>rnd1 * of_nat (length options)\<rfloor>"

definition targetRotation :: "nat \<Rightarrow> int \<Rightarrow> rat" where
  \<comment> \<open>The same expression in \<open>spin\<close> and in the history-highlight effect.\<close>
  "targetRotation n targetIndex =
     (let sliceAngle = 360 / of_nat n
      in js_rem (90 - of_int targetIndex * sliceAngle - sliceAngle / 2 + 360) 360)"

definition spin_deltaRotation :: "rat \<Rightarrow> rat \<Rightarrow> rat" where
  "spin_deltaRotation target rot =
     (let currentRotationMod = js_rem rot 360
      in js_rem (target - currentRotationMod + 360) 360)"

definition spin_spins :: "bool \<Rightarrow> rat \<Rightarrow> rat" where
  "spin_spins reduced rnd2 = (if reduced then 4 + rnd2 * (3 / 2) else 5 + rnd2 * 2)"

definition spin_totalRotation :: "string list \<Rightarrow> rat \<Rightarrow> rat \<Rightarrow> wheel \<Rightarrow> rat" where
  "spin_totalRotation options rnd1 rnd2 w =
     (let targetIndex = spin_targetIndex options rnd1;
          target = targetRotation (length options) targetIndex;
          deltaRotation = spin_deltaRotation target (rotation w);
          spins = spin_spins (prefersReducedMotion w) rnd2
      in rotation w + spins * 360 + deltaRotation)"

definition spin_animationDuration :: "bool \<Rightarrow> rat \<Rightarrow> rat" where
  \<comment> \<open>The decimal literals stand for the doubles nearest to them; the duration only
      times the animation and the completion callback.\<close>
  "spin_animationDuration reduced rnd3 =
     (let baseDuration = (if reduced then 24 / 10 else 33 / 10);
          jitter = (if reduced then 3 / 10 else 5 / 10)
      in baseDuration + rnd3 * jitter)"

text \<open>
  The completion callback of \<open>spin\<close> runs from a timer. It closes over the angle computed
  by \<open>spin\<close> and over the option list of the render in which \<open>spin\<close> was called.
\<close>

record pending_spin =
  ps_totalRotation :: rat
  ps_options :: "string list"
  ps_animationDuration :: rat

definition spin :: "string list \<Rightarrow> bool \<Rightarrow> rat \<Rightarrow> rat \<Rightarrow> rat \<Rightarrow> wheel
    \<Rightarrow> wheel \<times> pending_spin option" where
  \<comment> \<open>\<open>hasOnSpinStart\<close>: whether the optional \<open>onSpinStart\<close> callback was supplied.\<close>
  "spin options hasOnSpinStart rnd1 rnd2 rnd3 w =
     (if isSpinning w then (w, None)
      else if length options < 2 then (w, None)
      else
        let w1 = (if hasOnSpinStart then w\<lparr>trace := trace w @ [SpinStartCalled]\<rparr> else w);
            w2 = w1\<lparr>isSpinning := True, selectedIndex := None\<rparr>;
            totalRotation = spin_totalRotation options rnd1 rnd2 w;
            animationDuration = spin_animationDuration (prefersReducedMotion w) rnd3;
            w3 = w2\<lparr>trace := trace w2 @ [AnimationStart totalRotation animationDuration]\<rparr>
        in (w3, Some \<lparr>ps_totalRotation = totalRotation, ps_options = options,
                      ps_animationDuration = animationDuration\<rparr>))"

definition spin_settle :: "pending_spin \<Rightarrow> wheel \<Rightarrow> wheel" where
  "spin_settle p w =
     (let totalRotation = ps_totalRotation p;
          calculatedIndex = calculateIndexFromRotation (length (ps_options p)) totalRotation
      in w\<lparr>rotation := totalRotation,
           selectedIndex := Some calculatedIndex,
           isSpinning := False,
           trace := trace w @ [AnimationSet totalRotation,
                     ResultEmitted (nth_opt (ps_options p) calculatedIndex) calculatedIndex]\<rparr>)"

definition spin_then_settle :: "string list \<Rightarrow> bool \<Rightarrow> rat \<Rightarrow> rat \<Rightarrow> rat \<Rightarrow> wheel \<Rightarrow> wheel" where
  \<comment> \<open>An accepted spin followed by its completion callback; a rejected one changes nothing.\<close>
  "spin_then_settle options hasOnSpinStart rnd1 rnd2 rnd3 w =
     (case spin options hasOnSpinStart rnd1 rnd2 rnd3 w of
        (w', None) \<Rightarrow> w'
      | (w', Some p) \<Rightarrow> spin_settle p w')"

subsection \<open>The reorder effect\<close>

text \<open>
  The effect runs after a render with the option list of that render. It compares it with
  the list it saw last (\<open>prevOptionsRef\<close>); \<open>JSON.stringify\<close> is injective on arrays of
  strings, so the comparison of the two serialisations is the comparison of the lists.
\<close>

definition reorderSyncEffect :: "string list \<Rightarrow> wheel \<Rightarrow> wheel" where
  "reorderSyncEffect options w =
     (if length options < 2 then w
      else
        let w1 =
          (if length options = length (prevOptionsRef w) \<and> options \<noteq> prevOptionsRef w
               \<and> \<not> isSpinning w
           then
             let currentIndex = calculateIndexFromRotation (length options) (rotation w);
                 currentOption = nth_opt (prevOptionsRef w) currentIndex;
                 newIndex = (case currentOption of None \<Rightarrow> -1 | Some c \<Rightarrow> indexOf options c)
             in if newIndex \<noteq> -1 \<and> newIndex \<noteq> currentIndex
                then
                  let sliceAngle = 360 / of_nat (length options);
                      indexDiff = newIndex - currentIndex;
                      rotationAdjustment = - of_int indexDiff * sliceAngle;
                      newRotation = rotation w + rotationAdjustment
                  in w\<lparr>rotation := newRotation, prevRotationRef := newRotation,
                       trace := trace w @ [AnimationStart newRotation (4 / 10)]\<rparr>
                else w
           else w)
        in w1\<lparr>prevOptionsRef := options, prevRotationRef := rotation w\<rparr>)"

definition under_pointer :: "string list \<Rightarrow> wheel \<Rightarrow> string option" where
  \<comment> \<open>The label that the inverse mapping finds under the pointer.\<close>
  "under_pointer options w =
     nth_opt options (calculateIndexFromRotation (length options) (rotation w))"

subsection \<open>The history-highlight effect\<close>

definition every_matches :: "string list \<Rightarrow> string list \<Rightarrow> bool" where
  \<comment> \<open>\<open>hs.every((opt, i) => opt === options[i])\<close>\<close>
  "every_matches hs options =
     list_all (\<lambda>(i, opt). nth_opt options (int i) = Some opt) (enumerate 0 hs)"

definition historyHighlightEffect :: "string list \<Rightarrow> historyHighlight option \<Rightarrow> wheel \<Rightarrow> wheel" where
  "historyHighlightEffect options hh w =
     (case hh of
        None \<Rightarrow> w
      | Some h \<Rightarrow>
          if isSpinning w then w
          else if lastHistoryRequestIdRef w = Some (hh_requestId h) then w
          else if length (hh_options h) \<noteq> length options
                  \<or> \<not> every_matches (hh_options h) options then w
          else if length options < 2 then w
          else
            let targetIndex = min (max (hh_index h) 0) (int (length options) - 1);
                target = targetRotation (length options) targetIndex;
                currentRotationMod = js_rem (js_rem (rotation w) 360 + 360) 360;
                deltaRotation0 = js_rem (target - currentRotationMod + 360) 360;
                deltaRotation = (if deltaRotation0 > 180 then deltaRotation0 - 360
                                 else deltaRotation0);
                totalRotation = rotation w + deltaRotation
            in w\<lparr>rotation := totalRotation,
                 selectedIndex := Some targetIndex,
                 lastHistoryRequestIdRef := Some (hh_requestId h),
                 trace := trace w @ [AnimationStart totalRotation (9 / 10)]\<rparr>)"

section \<open>The option editor\<close>

text \<open>
  The editor does not own the option list: each mutation hands a new list to \<open>onChange\<close>.
  A function of the editor returns the editor's new state and the list handed to
  \<open>onChange\<close>, if it was called.
\<close>

datatype toast = MaxOptionsReached | OptionExists

record editor =
  newOption :: string
  isAddingNew :: bool
  editingIndex :: "int option"
  editValue :: string
  isProcessingAddRef :: bool
  toasts :: "toast list"

definition is_space :: "char \<Rightarrow> bool" where
  \<comment> \<open>The white space of ASCII; labels are byte strings here, so the Unicode white
      space that \<open>String.prototype.trim\<close> also strips is not covered.\<close>
  "is_space c = (c \<in> set [CHR 0x09, CHR 0x0A, CHR 0x0B, CHR 0x0C, CHR 0x0D, CHR 0x20])"

definition trim :: "string \<Rightarrow> string" where
  "trim s = rev (dropWhile is_space (rev (dropWhile is_space s)))"

definition addOption :: "string list \<Rightarrow> editor \<Rightarrow> editor \<times> string list option" where
  "addOption options ed =
     (if isProcessingAddRef ed then (ed, None)
      else
        let trimmedOption = trim (newOption ed);
            closed = ed\<lparr>isAddingNew := False, newOption := [], isProcessingAddRef := False\<rparr>
        in if trimmedOption = [] then (closed, None)
           else if length options \<ge> 12
             then (closed\<lparr>toasts := toasts ed @ [MaxOptionsReached]\<rparr>, None)
           else if trimmedOption \<in> set options
             then (closed\<lparr>toasts := toasts ed @ [OptionExists]\<rparr>, None)
           else (closed, Some (options @ [trimmedOption])))"

definition filter_index :: "'a list \<Rightarrow> int \<Rightarrow> 'a list" where
  \<comment> \<open>\<open>xs.filter((_, i) => i !== index)\<close>\<close>
  "filter_index xs index = map snd (filter (\<lambda>(i, x). int i \<noteq> index) (enumerate 0 xs))"

definition removeOption :: "string list \<Rightarrow> int \<Rightarrow> editor \<Rightarrow> editor \<times> string list option" where
  "removeOption options index ed =
     (if length options > 2 \<and> index \<ge> 0 \<and> index < int (length options)
      then (ed, Some (filter_index options index))
      else (ed, None))"

definition some_other :: "string list \<Rightarrow> string \<Rightarrow> int \<Rightarrow> bool" where
  \<comment> \<open>\<open>xs.some((opt, idx) => opt === v && idx !== k)\<close>\<close>
  "some_other xs v k = list_ex (\<lambda>(idx, opt). opt = v \<and> int idx \<noteq> k) (enumerate 0 xs)"

definition saveEdit :: "string list \<Rightarrow> editor \<Rightarrow> editor \<times> string list option" where
  "saveEdit options ed =
     (let done = ed\<lparr>editingIndex := None, editValue := []\<rparr>
      in case editingIndex ed of
           None \<Rightarrow> (done, None)
         | Some k \<Rightarrow>
             if trim (editValue ed) \<noteq> [] \<and> k \<ge> 0 \<and> k < int (length options)
             then
               let trimmedValue = trim (editValue ed)
               in if some_other options trimmedValue k then (done, None)
                  else (done, Some (options[nat k := trimmedValue]))
             else (done, None))"

definition options_after :: "string list \<Rightarrow> editor \<times> string list option \<Rightarrow> string list" where
  \<comment> \<open>The option list after a mutation: the list handed to \<open>onChange\<close>, or the old one
      when \<open>onChange\<close> was not called.\<close>
  "options_after options r = (case snd r of None \<Rightarrow> options | Some next \<Rightarrow> next)"

definition editor_inv :: "string list \<Rightarrow> bool" where
  "editor_inv options = (2 \<le> length options \<and> length options \<le> 12 \<and> distinct options)"

section \<open>The reorder effect in double precision\<close>

text \<open>
  A nonzero double is \<open>m * 2^e\<close> with an integer \<open>m\<close> of at most 53 bits and
  \<open>e \<ge> -1074\<close>. \<open>round_double\<close> takes a rational to the nearest double, a tie to the
  one with even \<open>m\<close>. Overflow to infinity is left out: the angles of the wheel are far
  below \<open>2^1024\<close>.
\<close>

function bit_length :: "int \<Rightarrow> int" where
  "bit_length n = (if n \<le> 0 then 0 else 1 + bit_length (n div 2))"
  by pat_completeness auto
termination
  by (relation "measure nat") auto

declare bit_length.simps [simp del]

definition pow2 :: "int \<Rightarrow> rat" where
  "pow2 e = (if 0 \<le> e then 2 ^ nat e else 1 / 2 ^ nat (- e))"

definition round_half_even :: "rat \<Rightarrow> int" where
  "round_half_even y =
     (let m = \<lfloor>y\<rfloor>; f = y - of_int m
      in if f < 1 / 2 then m else if 1 / 2 < f then m + 1 else if even m then m else m + 1)"

definition double_exponent :: "rat \<Rightarrow> int" where
  \<comment> \<open>For \<open>x > 0\<close>: the exponent \<open>e\<close> of the doubles around \<open>x\<close>, that is
      \<open>2^52 \<le> x / 2^e < 2^53\<close>, or \<open>-1074\<close> in the subnormal range. The binary logarithm
      of \<open>p / q\<close> is the difference of the bit lengths or one less.\<close>
  "double_exponent x =
     (let (p, q) = quotient_of x;
          l0 = bit_length p - bit_length q;
          l = (if pow2 l0 \<le> x then l0 else l0 - 1)
      in max (l - 52) (- 1074))"

definition round_double :: "rat \<Rightarrow> rat" where
  "round_double x =
     (if x = 0 then 0
      else
        let e = double_exponent \<bar>x\<bar>
        in sgn x * of_int (round_half_even (\<bar>x\<bar> / pow2 e)) * pow2 e)"

definition calculateIndexFromRotation_double :: "nat \<Rightarrow> rat \<Rightarrow> int" where
  "calculateIndexFromRotation_double n totalRotation =
     (if n \<le> 0 then 0
      else
        let sliceAngle = round_double (360 / of_nat n);
            index = \<lfloor>round_double
                      (js_rem (round_double (360 - js_rem totalRotation 360)) 360 / sliceAngle)\<rfloor>
        in js_rem_int index (int n))"

definition reorderSyncEffect_double :: "string list \<Rightarrow> wheel \<Rightarrow> wheel" where
  "reorderSyncEffect_double options w =
     (if length options < 2 then w
      else
        let w1 =
          (if length options = length (prevOptionsRef w) \<and> options \<noteq> prevOptionsRef w
               \<and> \<not> isSpinning w
           then
             let currentIndex = calculateIndexFromRotation_double (length options) (rotation w);
                 currentOption = nth_opt (prevOptionsRef w) currentIndex;
                 newIndex = (case currentOption of None \<Rightarrow> -1 | Some c \<Rightarrow> indexOf options c)
             in if newIndex \<noteq> -1 \<and> newIndex \<noteq> currentIndex
                then
                  let sliceAngle = round_double (360 / of_nat (length options));
                      indexDiff = newIndex - currentIndex;
                      rotationAdjustment = round_double (- of_int indexDiff * sliceAngle);
                      newRotation = round_double (rotation w + rotationAdjustment)
                  in w\<lparr>rotation := newRotation, prevRotationRef := newRotation,
                       trace := trace w @ [AnimationStart newRotation (4 / 10)]\<rparr>
                else w
           else w)
        in w1\<lparr>prevOptionsRef := options, prevRotationRef := rotation w\<rparr>)"

definition under_pointer_double :: "string list \<Rightarrow> wheel \<Rightarrow> string option" where
  "under_pointer_double options w =
     nth_opt options (calculateIndexFromRotation_double (length options) (rotation w))"

section \<open>Properties of the arithmetic\<close>

text \<open>
  With the divisor 360 the remainder stays strictly between \<open>-360\<close> and \<open>360\<close>, is
  not negative for a dividend that is not negative, and differs from the dividend by a
  multiple of 360.
\<close>

lemma js_rem_360_cases:
  "js_rem a 360 = (if a < 0 then a - 360 * of_int \<lceil>a / 360\<rceil> else a - 360 * of_int \<lfloor>a / 360\<rfloor>)"
  by (simp add: js_rem_def divide_less_0_iff)

lemma js_rem_360_nonneg_lower: "0 \<le> a \<Longrightarrow> 0 \<le> js_rem a 360"
  using floor_correct[of "a / 360"] by (simp add: js_rem_360_cases)

lemma js_rem_360_nonneg_upper: "0 \<le> a \<Longrightarrow> js_rem a 360 < 360"
  using floor_correct[of "a / 360"] by (simp add: js_rem_360_cases)


lemma js_rem_360_upper: "js_rem a 360 < 360"
proof (cases "a < 0")
  case True
  have "a / 360 \<le> of_int \<lceil>a / 360\<rceil>"
    by (rule le_of_int_ceiling)
  then have "a \<le> of_int \<lceil>a / 360\<rceil> * 360"
    by (simp only: pos_divide_le_eq[of 360, simplified])
  with True show ?thesis
    by (simp add: js_rem_360_cases)
next
  case False
  then show ?thesis
    by (simp add: js_rem_360_nonneg_upper)
qed

lemma js_rem_360_cong: "\<exists>k::int. js_rem a 360 = a - 360 * of_int k"
  by (auto simp: js_rem_360_cases)

lemma pointer_residue_range:
  "0 \<le> js_rem (360 - js_rem r 360) 360 \<and> js_rem (360 - js_rem r 360) 360 < 360"
proof -
  have "0 \<le> 360 - js_rem r 360" using js_rem_360_upper[of r] by simp
  then show ?thesis by (simp add: js_rem_360_nonneg_lower js_rem_360_nonneg_upper)
qed

lemma pointer_residue_cong:
  "\<exists>k::int. js_rem (360 - js_rem r 360) 360 = - r + 360 * of_int k"
proof -
  obtain k1 :: int where k1: "js_rem r 360 = r - 360 * of_int k1"
    using js_rem_360_cong by blast
  obtain k2 :: int where k2: "js_rem (360 - js_rem r 360) 360 = (360 - js_rem r 360) - 360 * of_int k2"
    using js_rem_360_cong by blast
  have "js_rem (360 - js_rem r 360) 360 = 360 - js_rem r 360 - 360 * of_int k2"
    by (rule k2)
  also have "\<dots> = 360 - (r - 360 * of_int k1) - 360 * of_int k2"
    by (simp only: k1)
  also have "\<dots> = - r + 360 * of_int (1 + k1 - k2)"
    by (simp add: algebra_simps)
  finally show ?thesis by blast
qed

lemma js_rem_int_small: "0 \<le> i \<Longrightarrow> i < n \<Longrightarrow> js_rem_int i n = i"
  by (cases "i = 0") (simp_all add: js_rem_int_def)

lemma calculateIndexFromRotation_math:
  assumes n: "0 < n"
  shows "calculateIndexFromRotation n r = \<lfloor>- r * of_nat n / 360\<rfloor> mod int n"
proof -
  define x where "x = js_rem (360 - js_rem r 360) 360"
  have x0: "0 \<le> x" and x1: "x < 360"
    using pointer_residue_range[of r] by (simp_all add: x_def)
  obtain k :: int where k: "x = - r + 360 * of_int k"
    using pointer_residue_cong[of r] x_def by auto
  define q where "q = x / (360 / of_nat n)"
  have qx: "q = x * of_nat n / 360" by (simp add: q_def)
  have q0: "0 \<le> q" using x0 by (simp add: qx)
  have "x * of_nat n < 360 * of_nat n" using x1 n by simp
  then have q1: "q < of_nat n" by (simp add: qx)
  have f0: "0 \<le> \<lfloor>q\<rfloor>" using q0 by simp
  have f1: "\<lfloor>q\<rfloor> < int n" using q1 by (simp add: floor_less_iff)
  have "q = - r * of_nat n / 360 + of_int (k * int n)"
    by (simp add: qx k field_simps)
  then have "\<lfloor>q\<rfloor> = \<lfloor>- r * of_nat n / 360\<rfloor> + k * int n"
    by (metis floor_add_int)
  then have "\<lfloor>- r * of_nat n / 360\<rfloor> mod int n = \<lfloor>q\<rfloor> mod int n"
    by simp
  also have "\<dots> = \<lfloor>q\<rfloor>" using f0 f1 by simp
  finally have "\<lfloor>- r * of_nat n / 360\<rfloor> mod int n = \<lfloor>q\<rfloor>" .
  moreover have "calculateIndexFromRotation n r = js_rem_int \<lfloor>q\<rfloor> (int n)"
    using n by (simp add: calculateIndexFromRotation_def x_def q_def Let_def)
  ultimately show ?thesis using f0 f1 by (simp add: js_rem_int_small)
qed

lemma calculateIndexFromRotation_range:
  "0 < n \<Longrightarrow> 0 \<le> calculateIndexFromRotation n r \<and> calculateIndexFromRotation n r < int n"
  by (simp add: calculateIndexFromRotation_math)

lemma calculateIndexFromRotation_shift:
  assumes n: "0 < n"
  shows "calculateIndexFromRotation n (r + - of_int d * (360 / of_nat n))
       = (calculateIndexFromRotation n r + d) mod int n"
proof -
  have "- (r + - of_int d * (360 / of_nat n)) * of_nat n / 360 = - r * of_nat n / 360 + of_int d"
    using n by (simp add: field_simps)
  then have "\<lfloor>- (r + - of_int d * (360 / of_nat n)) * of_nat n / 360\<rfloor> = \<lfloor>- r * of_nat n / 360\<rfloor> + d"
    by (metis floor_add_int)
  then show ?thesis using n
    by (simp add: calculateIndexFromRotation_math mod_add_left_eq)
qed

section \<open>Properties of the array helpers\<close>

lemma indexOf_from_found:
  "x \<in> set xs \<Longrightarrow>
     k \<le> indexOf_from xs x k \<and> indexOf_from xs x k < k + int (length xs)
     \<and> xs ! nat (indexOf_from xs x k - k) = x"
proof (induction xs arbitrary: k)
  case Nil
  then show ?case by simp
next
  case (Cons y ys)
  show ?case
  proof (cases "y = x")
    case True
    then show ?thesis by simp
  next
    case False
    with Cons.prems have "x \<in> set ys" by simp
    from Cons.IH[OF this, of "k + 1"]
    have a: "k + 1 \<le> indexOf_from ys x (k + 1)"
      and b: "indexOf_from ys x (k + 1) < k + 1 + int (length ys)"
      and c: "ys ! nat (indexOf_from ys x (k + 1) - (k + 1)) = x"
      by simp_all
    have "nat (indexOf_from ys x (k + 1) - k) = Suc (nat (indexOf_from ys x (k + 1) - (k + 1)))"
      using a by linarith
    with a b c False show ?thesis by simp
  qed
qed

lemma indexOf_found:
  "x \<in> set xs \<Longrightarrow> 0 \<le> indexOf xs x \<and> indexOf xs x < int (length xs) \<and> nth_opt xs (indexOf xs x) = Some x"
  using indexOf_from_found[of x xs 0] by (simp add: indexOf_def nth_opt_def)

lemma every_matches_nth:
  "every_matches hs os = (\<forall>i < length hs. nth_opt os (int i) = Some (hs ! i))"
proof
  assume e: "every_matches hs os"
  show "\<forall>i < length hs. nth_opt os (int i) = Some (hs ! i)"
  proof (intro allI impI)
    fix i assume "i < length hs"
    then have "(i, hs ! i) \<in> set (enumerate 0 hs)"
      by (simp add: in_set_enumerate_eq)
    with e show "nth_opt os (int i) = Some (hs ! i)"
      unfolding every_matches_def list_all_iff by fastforce
  qed
next
  assume a: "\<forall>i < length hs. nth_opt os (int i) = Some (hs ! i)"
  show "every_matches hs os"
    unfolding every_matches_def list_all_iff
  proof (intro ballI)
    fix p assume "p \<in> set (enumerate 0 hs)"
    then have "fst p < length hs" and "snd p = hs ! fst p"
      by (simp_all add: in_set_enumerate_eq)
    with a show "case p of (i, opt) \<Rightarrow> nth_opt os (int i) = Some opt"
      by (cases p) simp
  qed
qed

lemma every_matches_iff:
  assumes len: "length hs = length os"
  shows "every_matches hs os = (hs = os)"
proof -
  have "every_matches hs os = (\<forall>i < length hs. os ! i = hs ! i)"
    using len by (simp add: every_matches_nth nth_opt_def)
  also have "\<dots> = (hs = os)"
    using len by (auto simp: list_eq_iff_nth_eq)
  finally show ?thesis .
qed

lemma snapshot_mismatch:
  "hs \<noteq> os \<Longrightarrow> length hs \<noteq> length os \<or> \<not> every_matches hs os"
  using every_matches_iff[of hs os] by auto

section \<open>Properties of the target angle\<close>



lemma spin_deltaRotation_range:
  assumes t: "0 \<le> target"
  shows "0 \<le> spin_deltaRotation target rot \<and> spin_deltaRotation target rot < 360"
proof -
  have "0 \<le> target - js_rem rot 360 + 360"
    using t js_rem_360_upper[of rot] by simp
  then show ?thesis
    by (simp add: spin_deltaRotation_def Let_def js_rem_360_nonneg_lower js_rem_360_nonneg_upper)
qed

lemma roundtrip_offset:
  assumes n: "0 < n"
  shows "calculateIndexFromRotation n (targetRotation n t) = (t + \<lfloor>1 / 2 - of_nat n / 4 :: rat\<rfloor>) mod int n"
proof -
  define s :: rat where "s = 360 / of_nat n"
  have sn: "s * of_nat n = 360" using n by (simp add: s_def)
  obtain k :: int where k: "targetRotation n t = 90 - of_int t * s - s / 2 + 360 - 360 * of_int k"
    using js_rem_360_cong[of "90 - of_int t * s - s / 2 + 360"]
    by (auto simp: targetRotation_def Let_def s_def)
  have "- targetRotation n t * of_nat n / 360
          = (of_int t * (s * of_nat n) + (s * of_nat n) / 2 - 450 * of_nat n + 360 * of_int k * of_nat n) / 360"
    by (simp add: k algebra_simps)
  also have "\<dots> = (of_int t * 360 + 360 / 2 - 450 * of_nat n + 360 * of_int k * of_nat n) / 360"
    by (simp only: sn)
  also have "\<dots> = (1 / 2 - of_nat n / 4) + of_int (t + (k - 1) * int n)"
    by (simp add: field_simps)
  finally have "\<lfloor>- targetRotation n t * of_nat n / 360\<rfloor>
      = \<lfloor>1 / 2 - of_nat n / 4 :: rat\<rfloor> + (t + (k - 1) * int n)"
    by (simp only: floor_add_int)
  also have "\<dots> = (t + \<lfloor>1 / 2 - of_nat n / 4 :: rat\<rfloor>) + (k - 1) * int n"
    by simp
  finally have "\<lfloor>- targetRotation n t * of_nat n / 360\<rfloor> mod int n
      = (t + \<lfloor>1 / 2 - of_nat n / 4 :: rat\<rfloor>) mod int n"
    by (simp only: mod_mult_self1)
  then show ?thesis
    by (simp only: calculateIndexFromRotation_math[OF n])
qed

lemma roundtrip_misses:
  assumes n: "3 \<le> n" and t0: "0 \<le> t" and t1: "t < int n"
  shows "calculateIndexFromRotation n (targetRotation n t) \<noteq> t"
proof -
  define f where "f = \<lfloor>1 / 2 - of_nat n / 4 :: rat\<rfloor>"
  have "(1 / 2 - of_nat n / 4 :: rat) < 0" using n by simp
  then have f0: "f < 0" by (simp add: f_def floor_less_iff)
  have "(of_int (1 - int n) :: rat) \<le> 1 / 2 - of_nat n / 4" using n by simp
  then have f1: "1 - int n \<le> f" unfolding f_def by (simp only: le_floor_iff)
  have n0: "0 < n" using n by simp
  have eq: "calculateIndexFromRotation n (targetRotation n t) = (t + f) mod int n"
    unfolding f_def by (rule roundtrip_offset[OF n0])
  show ?thesis
  proof (cases "0 \<le> t + f")
    case True
    then have "(t + f) mod int n = t + f" using t1 f0 by simp
    then show ?thesis using eq f0 by simp
  next
    case False
    have b0: "0 \<le> t + f + int n"
      using t0 f1 by linarith
    have b1: "t + f + int n < int n"
      using False by linarith
    have "(t + f) mod int n = (t + f + int n) mod int n"
      by (simp only: mod_add_self2)
    also have "\<dots> = t + f + int n"
      using b0 b1 by (rule mod_pos_pos_trivial)
    finally show ?thesis using eq f1 by simp
  qed
qed

section \<open>Properties of the editor helpers\<close>

lemma filter_index_enumerate:
  "int k \<le> index \<Longrightarrow> index < int k + int (length xs) \<Longrightarrow>
     map snd (filter (\<lambda>(i, x). int i \<noteq> index) (enumerate k xs))
       = take (nat (index - int k)) xs @ drop (Suc (nat (index - int k))) xs"
proof (induction xs arbitrary: k)
  case Nil
  then show ?case by simp
next
  case (Cons y ys)
  show ?case
  proof (cases "int k = index")
    case True
    have "filter (\<lambda>(i, x). int i \<noteq> index) (enumerate (Suc k) ys) = enumerate (Suc k) ys"
      using True by (auto simp: filter_id_conv in_set_enumerate_eq)
    then show ?thesis using True by simp
  next
    case False
    with Cons.prems have a: "int (Suc k) \<le> index" and b: "index < int (Suc k) + int (length ys)"
      by simp_all
    have "nat (index - int k) = Suc (nat (index - int (Suc k)))"
      using a by linarith
    with Cons.IH[OF a b] False show ?thesis by simp
  qed
qed

lemma filter_index_take_drop:
  "0 \<le> index \<Longrightarrow> index < int (length xs) \<Longrightarrow>
     filter_index xs index = take (nat index) xs @ drop (Suc (nat index)) xs"
  using filter_index_enumerate[of 0 index xs] by (simp add: filter_index_def)

lemma filter_index_length:
  "0 \<le> index \<Longrightarrow> index < int (length xs) \<Longrightarrow> length (filter_index xs index) = length xs - 1"
  by (simp add: filter_index_take_drop)

lemma filter_index_distinct:
  "distinct xs \<Longrightarrow> distinct (filter_index xs index)"
  unfolding filter_index_def
  by (rule distinct_map_filter) simp

lemma some_other_iff:
  "some_other xs v k = (\<exists>idx < length xs. xs ! idx = v \<and> int idx \<noteq> k)"
  by (auto simp: some_other_def list_ex_iff in_set_enumerate_eq)

lemma update_distinct:
  assumes d: "distinct xs" and k: "k < length xs" and no: "\<not> (\<exists>idx < length xs. xs ! idx = v \<and> idx \<noteq> k)"
  shows "distinct (xs[k := v])"
proof (rule distinct_list_update[OF d])
  show "v \<notin> set xs - {xs ! k}"
  proof
    assume "v \<in> set xs - {xs ! k}"
    then obtain i where "i < length xs" "xs ! i = v" "v \<noteq> xs ! k"
      by (auto simp: in_set_conv_nth)
    then show False using no by auto
  qed
qed

lemma addOption_inv:
  "editor_inv options \<Longrightarrow> editor_inv (options_after options (addOption options ed))"
  by (simp add: addOption_def options_after_def editor_inv_def Let_def)

lemma removeOption_inv:
  "editor_inv options \<Longrightarrow> editor_inv (options_after options (removeOption options index ed))"
  by (auto simp: removeOption_def options_after_def editor_inv_def
      filter_index_length filter_index_distinct)

lemma saveEdit_inv:
  assumes inv: "editor_inv options"
  shows "editor_inv (options_after options (saveEdit options ed))"
proof (cases "snd (saveEdit options ed)")
  case None
  then show ?thesis using inv by (simp add: options_after_def)
next
  case (Some nxt)
  then obtain k where k: "editingIndex ed = Some k" "0 \<le> k" "k < int (length options)"
      and no: "\<not> some_other options (trim (editValue ed)) k"
      and nx: "nxt = options[nat k := trim (editValue ed)]"
    by (auto simp: saveEdit_def Let_def split: option.splits if_splits)
  have "\<not> (\<exists>idx < length options. options ! idx = trim (editValue ed) \<and> idx \<noteq> nat k)"
  proof
    assume "\<exists>idx < length options. options ! idx = trim (editValue ed) \<and> idx \<noteq> nat k"
    then obtain idx where "idx < length options" "options ! idx = trim (editValue ed)" "idx \<noteq> nat k"
      by blast
    moreover from this k have "int idx \<noteq> k" by auto
    ultimately show False using no by (auto simp: some_other_iff)
  qed
  then have "distinct nxt"
    unfolding nx using inv k by (intro update_distinct) (simp_all add: editor_inv_def)
  then show ?thesis using inv Some by (simp add: options_after_def editor_inv_def nx)
qed

section \<open>What a settled spin stores and emits\<close>

text \<open>
  An accepted spin, once settled, has stored the angle computed by \<open>spin\<close>, is no longer
  spinning, has selected the index that the inverse mapping gives for the stored angle,
  an index of the option list, and has handed that option and that index to \<open>onResult\<close>
  last.
\<close>

lemma spin_settle_facts:
  assumes idle: "\<not> isSpinning w" and len: "2 \<le> length options"
  shows "\<exists>p w'. spin options hasOnSpinStart rnd1 rnd2 rnd3 w = (w', Some p)
          \<and> ps_totalRotation p = spin_totalRotation options rnd1 rnd2 w
          \<and> rotation (spin_settle p w') = ps_totalRotation p
          \<and> \<not> isSpinning (spin_settle p w')
          \<and> selectedIndex (spin_settle p w')
               = Some (calculateIndexFromRotation (length options) (ps_totalRotation p))
          \<and> 0 \<le> calculateIndexFromRotation (length options) (ps_totalRotation p)
          \<and> calculateIndexFromRotation (length options) (ps_totalRotation p) < int (length options)
          \<and> last (trace (spin_settle p w'))
               = ResultEmitted (under_pointer options (spin_settle p w'))
                   (calculateIndexFromRotation (length options) (ps_totalRotation p))"
proof -
  have n0: "0 < length options" using len by linarith
  show ?thesis
    using idle len calculateIndexFromRotation_range[OF n0]
    by (simp add: spin_def spin_settle_def Let_def under_pointer_def)
qed

text \<open>
  C1. After an accepted spin has settled, the selected index is recomputed from the
  stored terminal angle and should equal the target index drawn at the start of the spin.
  It does not: with four options, the wheel at angle 0, the target index 2 and five whole
  extra turns, the wheel stops at 2025 degrees, the inverse mapping gives index 1, and
  \<open>onResult\<close> receives option \<open>B\<close> with index 1.
\<close>

theorem settled_index_differs_from_target:
  "spin_targetIndex [''A'', ''B'', ''C'', ''D''] (1 / 2) = 2
   \<and> rotation (spin_then_settle [''A'', ''B'', ''C'', ''D''] True (1 / 2) 0 0
        (initial_wheel [''A'', ''B'', ''C'', ''D''])) = 2025
   \<and> selectedIndex (spin_then_settle [''A'', ''B'', ''C'', ''D''] True (1 / 2) 0 0
        (initial_wheel [''A'', ''B'', ''C'', ''D''])) = Some 1
   \<and> trace (spin_then_settle [''A'', ''B'', ''C'', ''D''] True (1 / 2) 0 0
        (initial_wheel [''A'', ''B'', ''C'', ''D'']))
       = [SpinStartCalled, AnimationStart 2025 (33 / 10), AnimationSet 2025,
          ResultEmitted (Some ''B'') 1]"
  by code_simp

section \<open>The target angle and the terminal angle at concrete inputs\<close>

text \<open>
  C2. The target angle of an index, mapped back by the inverse mapping, should give the
  index again. With four options and target index 2 the target angle is 225 degrees, and
  the inverse mapping of 225 degrees is index 1.
\<close>

theorem roundtrip_fails_at_4_2:
  "targetRotation 4 2 = 225 \<and> calculateIndexFromRotation 4 (targetRotation 4 2) = 1"
  by code_simp

text \<open>
  C3. The terminal angle is the current angle plus the extra turns plus the forward delta
  to the target angle, and should be congruent to the target angle modulo 360. The number
  of extra turns is not whole: with four options, the wheel at angle 0, target index 2
  (target angle 225, delta 225) and the second random number 1/4, there are 5.5 extra
  turns, the terminal angle is 2205 degrees, and its residue modulo 360 is 45, not 225.
\<close>

theorem terminal_angle_not_congruent:
  "spin_targetIndex [''A'', ''B'', ''C'', ''D''] (1 / 2) = 2
   \<and> targetRotation 4 2 = 225
   \<and> spin_deltaRotation 225 0 = 225
   \<and> spin_spins False (1 / 4) = 11 / 2
   \<and> spin_totalRotation [''A'', ''B'', ''C'', ''D''] (1 / 2) (1 / 4)
        (initial_wheel [''A'', ''B'', ''C'', ''D'']) = 2205
   \<and> js_rem 2205 360 = 45"
  by code_simp

section \<open>The guards of spin\<close>

text \<open>
  C5. Calling \<open>spin\<close> while a spin is in flight is a silent no-op: the wheel (angle,
  spinning flag, selected index) is returned as it was, no completion callback is
  scheduled, and the trace is unchanged, so that neither \<open>onSpinStart\<close> nor \<open>onResult\<close>
  is called.
\<close>

theorem spin_while_spinning_noop:
  "isSpinning w \<Longrightarrow>
     spin options hasOnSpinStart rnd1 rnd2 rnd3 w = (w, None)
     \<and> spin_then_settle options hasOnSpinStart rnd1 rnd2 rnd3 w = w"
  by (simp add: spin_def spin_then_settle_def)

theorem spin_while_spinning_noop_witness:
  "isSpinning ((initial_wheel [''A'', ''B''])\<lparr>isSpinning := True\<rparr>)
   \<and> spin [''A'', ''B''] True (1 / 2) 0 0 ((initial_wheel [''A'', ''B''])\<lparr>isSpinning := True\<rparr>)
       = ((initial_wheel [''A'', ''B''])\<lparr>isSpinning := True\<rparr>, None)
   \<and> spin_then_settle [''A'', ''B''] True (1 / 2) 0 0
         ((initial_wheel [''A'', ''B''])\<lparr>isSpinning := True\<rparr>)
       = (initial_wheel [''A'', ''B''])\<lparr>isSpinning := True\<rparr>"
proof -
  have h: "isSpinning ((initial_wheel [''A'', ''B''])\<lparr>isSpinning := True\<rparr>)"
    by simp
  from spin_while_spinning_noop[OF h] h show ?thesis
    by simp
qed

text \<open>
  C6. With no option or a single option \<open>spin\<close> is rejected: the wheel is returned as it
  was (no change of the angle, no index computed, hence no division by the number of
  options), no completion callback is scheduled and the trace is unchanged.
\<close>

theorem spin_insufficient_options_noop:
  "length options < 2 \<Longrightarrow>
     spin options hasOnSpinStart rnd1 rnd2 rnd3 w = (w, None)
     \<and> spin_then_settle options hasOnSpinStart rnd1 rnd2 rnd3 w = w"
  by (simp add: spin_def spin_then_settle_def)

theorem spin_insufficient_options_noop_witness:
  "length [''A''] < 2
   \<and> spin [''A''] True (1 / 2) 0 0 (initial_wheel [''A'']) = (initial_wheel [''A''], None)
   \<and> spin_then_settle [''A''] True (1 / 2) 0 0 (initial_wheel [''A'']) = initial_wheel [''A'']"
proof -
  have h: "length [''A''] < 2"
    by simp
  from spin_insufficient_options_noop[OF h] h show ?thesis
    by simp
qed

text \<open>
  C7. A call of \<open>spin\<close> that passes the busy guard and the guard on the number of options
  calls \<open>onSpinStart\<close> once, before the animation is started: the trace grows by the call
  followed by the start of the animation, and the completion callback adds only the final
  angle and the result. A call rejected by a guard leaves the trace as it was.
\<close>

theorem spin_onSpinStart_once:
  "(\<not> isSpinning w \<and> 2 \<le> length options \<longrightarrow>
      (\<exists>total dur.
         trace (fst (spin options True rnd1 rnd2 rnd3 w))
           = trace w @ [SpinStartCalled, AnimationStart total dur]
       \<and> trace (spin_then_settle options True rnd1 rnd2 rnd3 w)
           = trace w @ [SpinStartCalled, AnimationStart total dur, AnimationSet total,
                ResultEmitted (under_pointer options (spin_then_settle options True rnd1 rnd2 rnd3 w))
                  (calculateIndexFromRotation (length options) total)]))
   \<and> (isSpinning w \<or> length options < 2 \<longrightarrow>
        trace (fst (spin options hasOnSpinStart rnd1 rnd2 rnd3 w)) = trace w
      \<and> trace (spin_then_settle options hasOnSpinStart rnd1 rnd2 rnd3 w) = trace w)"
  by (auto simp: spin_def spin_then_settle_def spin_settle_def Let_def under_pointer_def)

theorem spin_onSpinStart_once_witness:
  "\<not> isSpinning (initial_wheel [''A'', ''B'']) \<and> 2 \<le> length [''A'', ''B'']
   \<and> (\<exists>total dur.
         trace (fst (spin [''A'', ''B''] True (1 / 2) 0 0 (initial_wheel [''A'', ''B''])))
           = trace (initial_wheel [''A'', ''B'']) @ [SpinStartCalled, AnimationStart total dur])
   \<and> isSpinning ((initial_wheel [''A'', ''B''])\<lparr>isSpinning := True\<rparr>)
   \<and> trace (fst (spin [''A'', ''B''] True (1 / 2) 0 0
               ((initial_wheel [''A'', ''B''])\<lparr>isSpinning := True\<rparr>)))
       = trace ((initial_wheel [''A'', ''B''])\<lparr>isSpinning := True\<rparr>)"
proof -
  have h1: "\<not> isSpinning (initial_wheel [''A'', ''B'']) \<and> 2 \<le> length [''A'', ''B'']"
    by (simp add: initial_wheel_def)
  have h2: "isSpinning ((initial_wheel [''A'', ''B''])\<lparr>isSpinning := True\<rparr>)"
    by simp
  from spin_onSpinStart_once[of "initial_wheel [''A'', ''B'']" "[''A'', ''B'']" "1 / 2" 0 0 True] h1
  have a: "\<exists>total dur.
         trace (fst (spin [''A'', ''B''] True (1 / 2) 0 0 (initial_wheel [''A'', ''B''])))
           = trace (initial_wheel [''A'', ''B'']) @ [SpinStartCalled, AnimationStart total dur]"
    by blast
  from spin_onSpinStart_once[of "(initial_wheel [''A'', ''B''])\<lparr>isSpinning := True\<rparr>"
      "[''A'', ''B'']" "1 / 2" 0 0 True] h2
  have b: "trace (fst (spin [''A'', ''B''] True (1 / 2) 0 0
               ((initial_wheel [''A'', ''B''])\<lparr>isSpinning := True\<rparr>)))
       = trace ((initial_wheel [''A'', ''B''])\<lparr>isSpinning := True\<rparr>)"
    by blast
  from h1 h2 a b show ?thesis
    by blast
qed

section \<open>The reorder effect and the label under the pointer\<close>

text \<open>
  With exact arithmetic the adjustment of the reorder effect is right. When the option
  list is replaced by a reordering of itself (the same labels with the same
  multiplicities, at least two of them, in another order) while the wheel is not
  spinning, the effect turns the wheel by \<open>-(newIndex - currentIndex) * (360 / N)\<close>
  degrees, where \<open>currentIndex\<close> is the index under the pointer in the old order and
  \<open>newIndex\<close> the first position of that label in the new order; afterwards the inverse
  mapping finds, in the new order, the label it found before in the old order.
\<close>

lemma reorder_preserves_label_exact:
  assumes len: "2 \<le> length old"
    and perm: "mset new = mset old"
    and diff: "new \<noteq> old"
    and idle: "\<not> isSpinning w"
    and prev: "prevOptionsRef w = old"
  shows "\<exists>l. under_pointer old w = Some l
           \<and> under_pointer new (reorderSyncEffect new w) = Some l
           \<and> rotation (reorderSyncEffect new w) =
               rotation w + - of_int (indexOf new l - calculateIndexFromRotation (length old) (rotation w))
                              * (360 / of_nat (length old))"
proof -
  define n where "n = length old"
  define cur where "cur = calculateIndexFromRotation n (rotation w)"
  have ln: "length new = n"
    unfolding n_def using perm by (rule mset_eq_length)
  have n0: "0 < n"
    using len unfolding n_def by linarith
  have cur_range: "0 \<le> cur" "cur < int n"
    using calculateIndexFromRotation_range[OF n0, of "rotation w"] by (simp_all add: cur_def)
  define l where "l = old ! nat cur"
  have old_l: "nth_opt old cur = Some l"
    using cur_range by (simp add: nth_opt_def l_def n_def)
  have "l \<in> set old"
    using cur_range by (simp add: l_def n_def)
  then have "l \<in> set new"
    using mset_eq_setD[OF perm] by simp
  then have ni: "0 \<le> indexOf new l" "indexOf new l < int n" "nth_opt new (indexOf new l) = Some l"
    using indexOf_found[of l new] ln by simp_all
  define d where "d = indexOf new l - cur"
  have rot: "rotation (reorderSyncEffect new w) = rotation w + - of_int d * (360 / of_nat n)"
  proof (cases "indexOf new l = cur")
    case True
    then have "rotation (reorderSyncEffect new w) = rotation w"
      using len diff idle prev ln old_l
      by (simp add: reorderSyncEffect_def Let_def n_def cur_def)
    then show ?thesis
      using True by (simp add: d_def)
  next
    case False
    then show ?thesis
      using len diff idle prev ln old_l ni
      by (simp add: reorderSyncEffect_def Let_def n_def cur_def d_def minus_divide_left)
  qed
  have "calculateIndexFromRotation n (rotation (reorderSyncEffect new w)) = (cur + d) mod int n"
    unfolding rot cur_def by (rule calculateIndexFromRotation_shift[OF n0])
  also have "\<dots> = indexOf new l"
    using ni by (simp add: d_def)
  finally have "under_pointer new (reorderSyncEffect new w) = Some l"
    using ni ln by (simp add: under_pointer_def)
  moreover have "under_pointer old w = Some l"
    using old_l by (simp add: under_pointer_def cur_def n_def)
  ultimately show ?thesis
    using rot by (auto simp: d_def cur_def n_def)
qed

text \<open>
  Rounding to doubles agrees with the familiar values: 360 is a double, one tenth is not
  and is rounded down to \<open>3602879701896397 / 2^55\<close>, and the slice angle of seven options
  is \<open>51.42857142857143\<close>, that is \<open>3618963986279863 / 2^46\<close>.
\<close>

lemma round_double_examples:
  "round_double 360 = 360
   \<and> round_double (1 / 10) = 3602879701896397 / 36028797018963968
   \<and> round_double (360 / 7) = 3618963986279863 / 70368744177664"
  by code_simp

text \<open>
  C4. A reorder of the option list applied while the wheel is not spinning should keep
  the label under the pointer. In the doubles of the code it does not: on a fresh wheel
  (angle 0) with the seven options A to G, the label A is under the pointer; after the
  reorder to B, C, D, A, E, F, G the effect turns the wheel by \<open>-3\<close> slice angles to
  \<open>-154.28571428571428\<close> degrees, the inverse mapping divides \<open>154.28571428571422\<close> by the
  slice angle, gets \<open>2.9999999999999987\<close> and index 2, and finds D under the pointer.
  With exact arithmetic the same input keeps A.
\<close>

theorem reorder_loses_label_in_doubles:
  "under_pointer_double [''A'', ''B'', ''C'', ''D'', ''E'', ''F'', ''G'']
       (initial_wheel [''A'', ''B'', ''C'', ''D'', ''E'', ''F'', ''G'']) = Some ''A''
   \<and> rotation (reorderSyncEffect_double [''B'', ''C'', ''D'', ''A'', ''E'', ''F'', ''G'']
         (initial_wheel [''A'', ''B'', ''C'', ''D'', ''E'', ''F'', ''G'']))
       = - (2714222989709897 / 17592186044416)
   \<and> calculateIndexFromRotation_double 7 (- (2714222989709897 / 17592186044416)) = 2
   \<and> under_pointer_double [''B'', ''C'', ''D'', ''A'', ''E'', ''F'', ''G'']
       (reorderSyncEffect_double [''B'', ''C'', ''D'', ''A'', ''E'', ''F'', ''G'']
          (initial_wheel [''A'', ''B'', ''C'', ''D'', ''E'', ''F'', ''G''])) = Some ''D''
   \<and> under_pointer [''B'', ''C'', ''D'', ''A'', ''E'', ''F'', ''G'']
       (reorderSyncEffect [''B'', ''C'', ''D'', ''A'', ''E'', ''F'', ''G'']
          (initial_wheel [''A'', ''B'', ''C'', ''D'', ''E'', ''F'', ''G''])) = Some ''A''"
  by code_simp

section \<open>Replaying a result of the history\<close>

text \<open>
  C8. A highlight request whose snapshot of the options is not the current option list
  (another length, or another label at some position) is ignored: the wheel is returned
  as it was, in particular its angle and its selected index, and no animation is started.
\<close>

theorem stale_replay_ignored:
  "hh_options h \<noteq> options \<Longrightarrow> historyHighlightEffect options (Some h) w = w"
  using snapshot_mismatch[of "hh_options h" options]
  by (auto simp: historyHighlightEffect_def)

theorem stale_replay_ignored_witness:
  "hh_options \<lparr>hh_options = [''A'', ''C''], hh_index = 1, hh_requestId = 7\<rparr> \<noteq> [''A'', ''B'']
   \<and> historyHighlightEffect [''A'', ''B'']
        (Some \<lparr>hh_options = [''A'', ''C''], hh_index = 1, hh_requestId = 7\<rparr>)
        (initial_wheel [''A'', ''B''])
       = initial_wheel [''A'', ''B'']"
proof -
  have h: "hh_options \<lparr>hh_options = [''A'', ''C''], hh_index = 1, hh_requestId = 7\<rparr> \<noteq> [''A'', ''B'']"
    by simp
  from stale_replay_ignored[OF h] h show ?thesis
    by blast
qed




section \<open>The invariant of the option editor\<close>

text \<open>
  C10. An option list of 2 to 12 pairwise distinct labels stays one under the mutations
  of the editor: \<open>addOption\<close> does not call \<open>onChange\<close> when the list has 12 entries or
  has the trimmed label already, \<open>removeOption\<close> does not when the list has 2 entries, and
  \<open>saveEdit\<close> does not when the trimmed label is at another position of the list.
\<close>

theorem editor_mutations_preserve_invariant:
  "editor_inv options \<Longrightarrow>
     editor_inv (options_after options (addOption options ed))
   \<and> editor_inv (options_after options (removeOption options index ed))
   \<and> editor_inv (options_after options (saveEdit options ed))
   \<and> (length options \<ge> 12 \<or> trim (newOption ed) \<in> set options
        \<longrightarrow> snd (addOption options ed) = None)
   \<and> (length options \<le> 2 \<longrightarrow> snd (removeOption options index ed) = None)
   \<and> ((\<exists>k idx. editingIndex ed = Some k \<and> idx < length options
           \<and> options ! idx = trim (editValue ed) \<and> int idx \<noteq> k)
        \<longrightarrow> snd (saveEdit options ed) = None)"
proof (intro conjI impI)
  assume inv: "editor_inv options"
  show "editor_inv (options_after options (addOption options ed))"
    using inv by (rule addOption_inv)
  show "editor_inv (options_after options (removeOption options index ed))"
    using inv by (rule removeOption_inv)
  show "editor_inv (options_after options (saveEdit options ed))"
    using inv by (rule saveEdit_inv)
next
  assume "12 \<le> length options \<or> trim (newOption ed) \<in> set options"
  then show "snd (addOption options ed) = None"
    by (auto simp: addOption_def Let_def)
next
  assume "length options \<le> 2"
  then show "snd (removeOption options index ed) = None"
    by (simp add: removeOption_def)
next
  assume "\<exists>k idx. editingIndex ed = Some k \<and> idx < length options
           \<and> options ! idx = trim (editValue ed) \<and> int idx \<noteq> k"
  then obtain k idx where "editingIndex ed = Some k" "idx < length options"
      "options ! idx = trim (editValue ed)" "int idx \<noteq> k"
    by blast
  then have "editingIndex ed = Some k" "some_other options (trim (editValue ed)) k"
    by (auto simp: some_other_iff)
  then show "snd (saveEdit options ed) = None"
    by (simp add: saveEdit_def Let_def)
qed

theorem editor_mutations_preserve_invariant_witness:
  "editor_inv [''A'', ''B'']
   \<and> editor_inv (options_after [''A'', ''B'']
         (addOption [''A'', ''B'']
            \<lparr>newOption = '' C '', isAddingNew = True, editingIndex = Some 1, editValue = ''A'',
             isProcessingAddRef = False, toasts = []\<rparr>))
   \<and> length [''A'', ''B''] \<le> 2
   \<and> snd (removeOption [''A'', ''B''] 0
         \<lparr>newOption = '' C '', isAddingNew = True, editingIndex = Some 1, editValue = ''A'',
          isProcessingAddRef = False, toasts = []\<rparr>) = None
   \<and> snd (saveEdit [''A'', ''B'']
         \<lparr>newOption = '' C '', isAddingNew = True, editingIndex = Some 1, editValue = ''A'',
          isProcessingAddRef = False, toasts = []\<rparr>) = None
   \<and> snd (addOption [''A'', ''B'']
         \<lparr>newOption = '' A'', isAddingNew = True, editingIndex = None, editValue = [],
          isProcessingAddRef = False, toasts = []\<rparr>) = None"
proof -
  have h: "editor_inv [''A'', ''B'']"
    by (simp add: editor_inv_def)
  have r: "length [''A'', ''B''] \<le> 2"
    by simp
  have e: "\<exists>k idx.
      editingIndex \<lparr>newOption = '' C '', isAddingNew = True, editingIndex = Some 1,
          editValue = ''A'', isProcessingAddRef = False, toasts = []\<rparr> = Some k
      \<and> idx < length [''A'', ''B'']
      \<and> [''A'', ''B''] ! idx
          = trim (editValue \<lparr>newOption = '' C '', isAddingNew = True, editingIndex = Some 1,
              editValue = ''A'', isProcessingAddRef = False, toasts = []\<rparr>)
      \<and> int idx \<noteq> k"
    by (intro exI[of _ 1] exI[of _ 0]) (simp add: trim_def is_space_def)
  have a: "12 \<le> length [''A'', ''B'']
      \<or> trim (newOption \<lparr>newOption = '' A'', isAddingNew = True, editingIndex = None,
            editValue = [], isProcessingAddRef = False, toasts = []\<rparr>) \<in> set [''A'', ''B'']"
    by (simp add: trim_def is_space_def)
  from editor_mutations_preserve_invariant[OF h,
      of "\<lparr>newOption = '' C '', isAddingNew = True, editingIndex = Some 1, editValue = ''A'',
           isProcessingAddRef = False, toasts = []\<rparr>" 0] r e
  have first: "editor_inv (options_after [''A'', ''B'']
         (addOption [''A'', ''B'']
            \<lparr>newOption = '' C '', isAddingNew = True, editingIndex = Some 1, editValue = ''A'',
             isProcessingAddRef = False, toasts = []\<rparr>))
   \<and> snd (removeOption [''A'', ''B''] 0
         \<lparr>newOption = '' C '', isAddingNew = True, editingIndex = Some 1, editValue = ''A'',
          isProcessingAddRef = False, toasts = []\<rparr>) = None
   \<and> snd (saveEdit [''A'', ''B'']
         \<lparr>newOption = '' C '', isAddingNew = True, editingIndex = Some 1, editValue = ''A'',
          isProcessingAddRef = False, toasts = []\<rparr>) = None"
    by blast
  from editor_mutations_preserve_invariant[OF h,
      of "\<lparr>newOption = '' A'', isAddingNew = True, editingIndex = None, editValue = [],
           isProcessingAddRef = False, toasts = []\<rparr>" 0] a
  have second: "snd (addOption [''A'', ''B'']
         \<lparr>newOption = '' A'', isAddingNew = True, editingIndex = None, editValue = [],
          isProcessingAddRef = False, toasts = []\<rparr>) = None"
    by blast
  from h r first second show ?thesis
    by blast
qed

end
